theory Spec2Isabelle
  imports Main "HOL-Library.Log_Nat"
begin

section \<open>Errors raised by the scanner\<close>

text \<open>
  The Python exceptions that the modelled functions raise. \<open>ValueError\<close> and
  \<open>RuntimeError\<close> are the two classes the source raises itself; \<open>LibraryError\<close>
  stands for whatever an OpenCV or Tesseract call raises (\<open>cv2.error\<close>,
  \<open>TesseractError\<close>, a timeout), which the source only ever meets through
  \<open>except Exception\<close>.
\<close>

datatype py_error =
    ValueError string
  | RuntimeError string
  | LibraryError string

section \<open>Corner ordering (transform module)\<close>

text \<open>
  A point is a row \<open>(x, y)\<close> of the \<open>(4, 2)\<close> array. Coordinates are modelled as
  integers: the corners come from contour approximation, which yields pixel
  coordinates, and the docstring example is an integer array. On such values the
  row sums, the row differences and the store into the \<open>float32\<close> result array are
  exact, so no rounding is modelled here.
\<close>

type_synonym point = "int \<times> int"









section \<open>Python strings and floats\<close>

text \<open>
  A Python \<open>str\<close> is a sequence of Unicode code points, here natural numbers;
  \<open>ascii\<close> turns a literal of the theory into such a string.
\<close>

type_synonym ustring = "nat list"

definition ascii :: "string \<Rightarrow> ustring" where
  "ascii s = map of_char s"

text \<open>
  \<open>str.isdigit\<close> and \<open>int\<close> read the Unicode character database, which is not
  part of the repository. It is a parameter: for a code point above ASCII,
  \<open>decimal_value\<close> gives its value when it is a decimal digit of some script
  (these are the characters \<open>int\<close> accepts), and \<open>digit_only\<close> says whether it is
  one of the other characters \<open>isdigit\<close> accepts (superscript digits and the like),
  on which \<open>int\<close> raises \<open>ValueError\<close>. The ASCII range is fixed.
\<close>

record unicode_tables =
  decimal_value :: "nat \<Rightarrow> nat option"
  digit_only :: "nat \<Rightarrow> bool"

definition decimal_of :: "unicode_tables \<Rightarrow> nat \<Rightarrow> nat option" where
  "decimal_of u c =
     (if 48 \<le> c \<and> c \<le> 57 then Some (c - 48)
      else if c < 128 then None
      else decimal_value u c)"

definition char_isdigit :: "unicode_tables \<Rightarrow> nat \<Rightarrow> bool" where
  "char_isdigit u c = (decimal_of u c \<noteq> None \<or> (128 \<le> c \<and> digit_only u c))"

text \<open>\<open>s.isdigit()\<close>: false on the empty string.\<close>

definition str_isdigit :: "unicode_tables \<Rightarrow> ustring \<Rightarrow> bool" where
  "str_isdigit u s = (s \<noteq> [] \<and> list_all (char_isdigit u) s)"

text \<open>
  \<open>int(s)\<close> on a string that passed \<open>isdigit\<close>: the decimal value, or \<open>ValueError\<close>
  when a character has no decimal value.
\<close>

definition py_int :: "unicode_tables \<Rightarrow> ustring \<Rightarrow> py_error + int" where
  "py_int u s =
     (if s = [] then Inl (ValueError ''invalid literal for int()'')
      else case those (map (decimal_of u) s) of
             None \<Rightarrow> Inl (ValueError ''invalid literal for int()'')
           | Some ds \<Rightarrow> Inr (int (foldl (\<lambda>a d. 10 * a + d) 0 ds)))"

text \<open>\<open>s[i:j]\<close> for \<open>0 \<le> i \<le> j\<close>: a slice never raises, it is cut at the end of \<open>s\<close>.\<close>

definition py_slice :: "ustring \<Rightarrow> nat \<Rightarrow> nat \<Rightarrow> ustring" where
  "py_slice s i j = take (j - i) (drop i s)"

text \<open>
  A Python \<open>float\<close> is an IEEE 754 double. Its value is modelled exactly, as a
  rational; \<open>float64\<close> rounds a rational to the nearest double, ties to the even
  significand (53 bits). \<open>binade x\<close> is the exponent \<open>e\<close> with
  \<open>2\<^sup>e \<le> |x| < 2\<^sup>e\<^sup>+\<^sup>1\<close>. Overflow and subnormal numbers are not modelled: the
  scores are sums of at most four weights between \<open>0.1\<close> and \<open>0.35\<close>.
\<close>

definition binade :: "rat \<Rightarrow> int" where
  "binade x =
     (let (p, q) = quotient_of \<bar>x\<bar>;
          e = bitlen p - bitlen q
      in if power_int 2 e \<le> \<bar>x\<bar> then e else e - 1)"

definition round_half_even :: "rat \<Rightarrow> int" where
  "round_half_even q =
     (let n = \<lfloor>q\<rfloor>; r = q - of_int n
      in if r < 1 / 2 then n
         else if 1 / 2 < r then n + 1
         else if even n then n else n + 1)"

definition float64 :: "rat \<Rightarrow> rat" where
  "float64 x =
     (if x = 0 then 0
      else let ulp = power_int 2 (binade x - 52)
           in of_int (round_half_even (x / ulp)) * ulp)"

text \<open>
  \<open>a + b\<close> on floats. A float literal of the source is the rounded decimal:
  \<open>0.35\<close> is \<open>float64 (35 / 100)\<close>.
\<close>

definition float_add :: "rat \<Rightarrow> rat \<Rightarrow> rat" where
  "float_add a b = float64 (a + b)"

section \<open>The identifier check (card-recognition module)\<close>

text \<open>
  The translation table of \<open>validate_id_number_region\<close>: Arabic-Indic digits
  (U+0660 to U+0669) and Eastern Arabic-Indic digits (U+06F0 to U+06F9) go to
  \<open>0\<close> .. \<open>9\<close>; every other character stays.
\<close>

definition arabic_to_ascii_translation :: "nat \<Rightarrow> nat" where
  "arabic_to_ascii_translation c =
     (if 1632 \<le> c \<and> c \<le> 1641 then c - 1632 + 48
      else if 1776 \<le> c \<and> c \<le> 1785 then c - 1776 + 48
      else c)"

text \<open>
  The part of \<open>validate_id_number_region\<close> after the OCR call: translate, keep the
  characters with \<open>isdigit\<close>, and compare the length with 12.
\<close>

definition extracted_digit_string :: "unicode_tables \<Rightarrow> ustring \<Rightarrow> ustring" where
  "extracted_digit_string u raw_ocr_text =
     filter (char_isdigit u) (map arabic_to_ascii_translation raw_ocr_text)"

definition is_valid_id_number :: "ustring \<Rightarrow> bool" where
  "is_valid_id_number digit_string = (12 \<le> length digit_string)"

definition valid_governorate_codes :: "ustring list" where
  "valid_governorate_codes = map ascii
     [''01'', ''02'', ''03'', ''04'',
      ''11'', ''12'', ''13'', ''14'', ''15'', ''16'', ''17'', ''18'', ''19'',
      ''21'', ''22'', ''23'', ''24'', ''25'', ''26'', ''27'', ''28'', ''29'',
      ''31'', ''32'', ''33'', ''34'', ''35'',
      ''88'']"

text \<open>
  The three blocks of \<open>calculate_egyptian_id_confidence_score\<close>, each taking the
  running \<open>confidence_score\<close> and returning it updated. In the month and day block
  both \<open>int\<close> calls come before both additions, so a \<open>ValueError\<close> from either one
  leaves the score as it was (\<open>except (ValueError, IndexError): pass\<close>).
\<close>

definition century_check :: "ustring \<Rightarrow> rat \<Rightarrow> rat" where
  "century_check id_number confidence_score =
     (if 1 \<le> length id_number \<and> (id_number ! 0 = 50 \<or> id_number ! 0 = 51)
      then float_add confidence_score (float64 (10 / 100))
      else confidence_score)"

definition month_day_check :: "unicode_tables \<Rightarrow> ustring \<Rightarrow> rat \<Rightarrow> rat" where
  "month_day_check u id_number confidence_score =
     (if 7 \<le> length id_number then
        let month_str = py_slice id_number 3 5;
            day_str = py_slice id_number 5 7
        in if str_isdigit u month_str \<and> str_isdigit u day_str then
             (case py_int u month_str of
                Inl e \<Rightarrow> confidence_score
              | Inr month \<Rightarrow>
             (case py_int u day_str of
                Inl e \<Rightarrow> confidence_score
              | Inr day \<Rightarrow>
                  let score1 = (if 1 \<le> month \<and> month \<le> 12
                                then float_add confidence_score (float64 (35 / 100))
                                else confidence_score)
                  in if 1 \<le> day \<and> day \<le> 31
                     then float_add score1 (float64 (35 / 100))
                     else score1))
           else confidence_score
      else confidence_score)"

definition governorate_check :: "ustring \<Rightarrow> rat \<Rightarrow> rat" where
  "governorate_check id_number confidence_score =
     (if 9 \<le> length id_number then
        let governorate_code = py_slice id_number 7 9
        in if governorate_code \<in> set valid_governorate_codes
           then float_add confidence_score (float64 (20 / 100))
           else confidence_score
      else confidence_score)"

definition calculate_egyptian_id_confidence_score :: "unicode_tables \<Rightarrow> ustring \<Rightarrow> rat" where
  "calculate_egyptian_id_confidence_score u id_number =
     (if id_number = [] \<or> \<not> str_isdigit u id_number then 0
      else min (governorate_check id_number
                 (month_day_check u id_number
                   (century_check id_number 0))) 1)"

text \<open>A string of the ASCII digits \<open>0\<close> to \<open>9\<close> only.\<close>

definition ascii_digits :: "ustring \<Rightarrow> bool" where
  "ascii_digits s = list_all (\<lambda>c. 48 \<le> c \<and> c \<le> 57) s"

text \<open>Unicode tables with nothing above ASCII, for evaluating examples.\<close>

definition ascii_only :: unicode_tables where
  "ascii_only = \<lparr>decimal_value = (\<lambda>c. None), digit_only = (\<lambda>c. False)\<rparr>"

section \<open>Candidate selection and the scan (card-recognition module)\<close>

text \<open>
  OpenCV and Tesseract are outside the repository; what they return is a
  parameter of the model. An image is a value of the type \<open>'img\<close>, a contour is
  its array of points. A call that can raise inside the \<open>try\<close> block of the
  candidate loop, or again in the last steps of \<open>scan_id_card\<close>, returns a sum.

  \<^item> \<open>imread\<close>: \<open>cv2.imread\<close>, \<open>None\<close> when the file cannot be read.
  \<^item> \<open>resize_for_processing\<close>: the \<open>cv2.resize\<close> of \<open>load_and_resize_image\<close>.
  \<^item> \<open>edge_detection\<close>: \<open>preprocess_for_edge_detection\<close>, all of it OpenCV calls.
  \<^item> \<open>find_contours\<close>: \<open>cv2.findContours\<close> and \<open>imutils.grab_contours\<close>.
  \<^item> \<open>contour_area\<close>: \<open>cv2.contourArea\<close>.
  \<^item> \<open>approx_poly\<close>: \<open>cv2.approxPolyDP\<close> with 2 percent of \<open>cv2.arcLength\<close>.
  \<^item> \<open>apply_perspective_correction\<close>: the function of that name in transform.py,
    applied to the corners scaled to full resolution; it orders the corners and
    calls \<open>cv2.getPerspectiveTransform\<close> and \<open>cv2.warpPerspective\<close>.
  \<^item> \<open>resize_to_card\<close>: \<open>cv2.resize\<close> to \<open>FINAL_CARD_SIZE\<close>.
  \<^item> \<open>id_number_region\<close>: grey scale, threshold at 90 and the crop
    \<open>[480:560, 400:1000]\<close> of \<open>validate_id_number_region\<close>.
  \<^item> \<open>image_to_string\<close>: \<open>pytesseract.image_to_string\<close>, in one of the two ways
    the source calls it.
\<close>

type_synonym contour = "point list"

datatype ocr_call = AraNumber | AraEngWhitelist

record 'img world =
  unicode :: unicode_tables
  imread :: "string \<Rightarrow> 'img option"
  resize_for_processing :: "'img \<Rightarrow> 'img"
  edge_detection :: "'img \<Rightarrow> 'img"
  find_contours :: "'img \<Rightarrow> contour list"
  contour_area :: "contour \<Rightarrow> rat"
  approx_poly :: "contour \<Rightarrow> contour"
  apply_perspective_correction :: "'img \<Rightarrow> contour \<Rightarrow> py_error + 'img"
  resize_to_card :: "'img \<Rightarrow> py_error + 'img"
  id_number_region :: "'img \<Rightarrow> py_error + 'img"
  image_to_string :: "'img \<Rightarrow> ocr_call \<Rightarrow> py_error + ustring"

text \<open>
  What a run does besides returning: the calls into the perspective correction
  and into the validation, the lines it prints and the file it writes, in order.
\<close>

datatype message =
    IdValidation ustring nat rat
  | FailedToProcess py_error
  | UsingFallback
  | Success string string

datatype 'img event =
    Normalized contour
  | Validated contour
  | Printed message
  | Written string 'img

text \<open>
  \<open>extract_and_transform_card\<close>, the third component of its result (the only one
  the loop reads): \<open>None\<close> for no corner points, else the standardized card.
\<close>

definition extract_and_transform_card ::
  "'img world \<Rightarrow> contour option \<Rightarrow> 'img \<Rightarrow> py_error + 'img option" where
  "extract_and_transform_card w card_corner_points full_resolution_image =
     (case card_corner_points of
        None \<Rightarrow> Inr None
      | Some corners \<Rightarrow>
     (case apply_perspective_correction w full_resolution_image corners of
        Inl e \<Rightarrow> Inl e
      | Inr perspective_corrected_card \<Rightarrow>
     (case resize_to_card w perspective_corrected_card of
        Inl e \<Rightarrow> Inl e
      | Inr standardized_card_image \<Rightarrow> Inr (Some standardized_card_image))))"

text \<open>
  \<open>validate_id_number_region\<close>: the first OCR call; when it raises, the second
  one, whose exception is not caught here.
\<close>

definition validate_id_number_region ::
  "'img world \<Rightarrow> 'img \<Rightarrow> py_error + (bool \<times> ustring)" where
  "validate_id_number_region w standardized_card_image =
     (case id_number_region w standardized_card_image of
        Inl e \<Rightarrow> Inl e
      | Inr region \<Rightarrow>
     (case (case image_to_string w region AraNumber of
              Inr text \<Rightarrow> Inr text
            | Inl _ \<Rightarrow> image_to_string w region AraEngWhitelist) of
        Inl e \<Rightarrow> Inl e
      | Inr raw_ocr_text \<Rightarrow>
          let digit_string = extracted_digit_string (unicode w) raw_ocr_text
          in Inr (is_valid_id_number digit_string, digit_string)))"

text \<open>The variables of \<open>find_best_card_contour\<close> that the loop updates.\<close>

record 'img loop_state =
  best_validated_contour :: "contour option"
  fallback_quadrilateral :: "contour option"
  trace :: "'img event list"

definition initial_state :: "'img loop_state" where
  "initial_state =
     \<lparr>best_validated_contour = None, fallback_quadrilateral = None, trace = []\<rparr>"

definition emit :: "'img event list \<Rightarrow> 'img loop_state \<Rightarrow> 'img loop_state" where
  "emit es st = st\<lparr>trace := trace st @ es\<rparr>"

text \<open>
  The \<open>for\<close> loop over \<open>largest_contours\<close>. \<open>break\<close> returns the state without
  looking at the rest of the list; \<open>continue\<close> and the end of the body go on with
  the rest.
\<close>

fun candidate_loop ::
  "'img world \<Rightarrow> 'img \<Rightarrow> contour list \<Rightarrow> 'img loop_state \<Rightarrow> 'img loop_state" where
  "candidate_loop w full_resolution_image [] st = st"
| "candidate_loop w full_resolution_image (current_contour # rest) st =
     (let simplified_contour = approx_poly w current_contour
      in if length simplified_contour = 4 then
           let st1 = (if fallback_quadrilateral st = None
                      then st\<lparr>fallback_quadrilateral := Some simplified_contour\<rparr>
                      else st);
               st2 = emit [Normalized simplified_contour] st1
           in (case extract_and_transform_card w (Some simplified_contour)
                      full_resolution_image of
                 Inl processing_error \<Rightarrow>
                   candidate_loop w full_resolution_image rest
                     (emit [Printed (FailedToProcess processing_error)] st2)
               | Inr None \<Rightarrow> candidate_loop w full_resolution_image rest st2
               | Inr (Some candidate_card_image) \<Rightarrow>
                   let st3 = emit [Validated simplified_contour] st2
                   in (case validate_id_number_region w candidate_card_image of
                         Inl processing_error \<Rightarrow>
                           candidate_loop w full_resolution_image rest
                             (emit [Printed (FailedToProcess processing_error)] st3)
                       | Inr (is_valid, digit_string) \<Rightarrow>
                           let id_confidence_score =
                                 calculate_egyptian_id_confidence_score (unicode w) digit_string;
                               st4 = emit [Printed (IdValidation digit_string
                                        (length digit_string) id_confidence_score)] st3
                           in if is_valid
                              then st4\<lparr>best_validated_contour := Some simplified_contour\<rparr>
                              else candidate_loop w full_resolution_image rest st4))
         else candidate_loop w full_resolution_image rest st)"

text \<open>
  \<open>sorted(detected_contours, key=cv2.contourArea, reverse=True)[:5]\<close>. Python's
  sort is stable also with \<open>reverse=True\<close>, as \<open>sort_key\<close> on the negated area is.
\<close>

definition largest_contours :: "'img world \<Rightarrow> contour list \<Rightarrow> contour list" where
  "largest_contours w detected_contours =
     take 5 (sort_key (\<lambda>c. - contour_area w c) detected_contours)"

definition find_best_card_contour ::
  "'img world \<Rightarrow> 'img \<Rightarrow> 'img \<Rightarrow> 'img event list \<times> (py_error + contour)" where
  "find_best_card_contour w edge_detected_image full_resolution_image =
     (let st = candidate_loop w full_resolution_image
                 (largest_contours w (find_contours w edge_detected_image)) initial_state;
          st' = (if best_validated_contour st = None \<and> fallback_quadrilateral st \<noteq> None
                 then emit [Printed UsingFallback]
                        (st\<lparr>best_validated_contour := fallback_quadrilateral st\<rparr>)
                 else st)
      in case best_validated_contour st' of
           None \<Rightarrow> (trace st', Inl (RuntimeError ''No suitable quadrilateral contour found.''))
         | Some contour \<Rightarrow> (trace st', Inr contour))"

text \<open>
  \<open>scan_id_card\<close>. The card side is looked at after the perspective correction
  and the resize of step 4 and 5, just before the file is written.
\<close>

definition scan_id_card ::
  "'img world \<Rightarrow> string \<Rightarrow> string \<Rightarrow> 'img event list \<times> (py_error + 'img)" where
  "scan_id_card w input_image_path card_side_type =
     (case imread w input_image_path of
        None \<Rightarrow> ([], Inl (ValueError (''Could not load image from path: '' @ input_image_path)))
      | Some full_resolution_image \<Rightarrow>
     (let processing_sized_image = resize_for_processing w full_resolution_image;
          edge_detected_image = edge_detection w processing_sized_image
      in case find_best_card_contour w edge_detected_image full_resolution_image of
           (tr, Inl e) \<Rightarrow> (tr, Inl e)
         | (tr, Inr optimal_card_contour) \<Rightarrow>
     (let tr1 = tr @ [Normalized optimal_card_contour]
      in case apply_perspective_correction w full_resolution_image optimal_card_contour of
           Inl e \<Rightarrow> (tr1, Inl e)
         | Inr perspective_corrected_card \<Rightarrow>
     (case resize_to_card w perspective_corrected_card of
        Inl e \<Rightarrow> (tr1, Inl e)
      | Inr final_processed_card \<Rightarrow>
          if card_side_type = ''front'' then
            (tr1 @ [Written ''temp_front.jpg'' final_processed_card,
                    Printed (Success card_side_type ''temp_front.jpg'')],
             Inr final_processed_card)
          else if card_side_type = ''back'' then
            (tr1 @ [Written ''temp_back.jpg'' final_processed_card,
                    Printed (Success card_side_type ''temp_back.jpg'')],
             Inr final_processed_card)
          else (tr1, Inl (ValueError (''Invalid card_side_type: '' @ card_side_type)))))))"

text \<open>
  A candidate passes when the loop would accept it: four corners after the
  approximation, a standardized card, and an identifier of at least 12 digits.
\<close>

definition passes_gate :: "'img world \<Rightarrow> 'img \<Rightarrow> contour \<Rightarrow> bool" where
  "passes_gate w full_resolution_image c =
     (length (approx_poly w c) = 4 \<and>
      (case extract_and_transform_card w (Some (approx_poly w c)) full_resolution_image of
         Inr (Some card_image) \<Rightarrow>
           (case validate_id_number_region w card_image of
              Inr (is_valid, _) \<Rightarrow> is_valid
            | Inl _ \<Rightarrow> False)
       | _ \<Rightarrow> False))"

section \<open>Example scenes\<close>

text \<open>
  Concrete worlds on which the statements below are evaluated: images are
  numbers, \<open>cv2.contourArea\<close> is the area of the polygon, the polygon
  approximation leaves a contour as it is, and the outcome of the perspective
  correction and of the OCR are given per contour and per image.
\<close>

definition polygon_area :: "contour \<Rightarrow> rat" where
  "polygon_area ps =
     (case ps of
        [] \<Rightarrow> 0
      | p # _ \<Rightarrow>
          \<bar>of_int (sum_list (map2 (\<lambda>(x1, y1) (x2, y2). x1 * y2 - x2 * y1) ps (tl ps @ [p])))\<bar> / 2)"

definition example_world ::
  "(contour \<Rightarrow> py_error + nat) \<Rightarrow> (nat \<Rightarrow> py_error + ustring) \<Rightarrow> contour list \<Rightarrow> nat world" where
  "example_world warp ocr contours =
     \<lparr>unicode = ascii_only,
      imread = (\<lambda>path. if path = ''card.jpg'' then Some 0 else None),
      resize_for_processing = (\<lambda>img. img),
      edge_detection = (\<lambda>img. img),
      find_contours = (\<lambda>img. contours),
      contour_area = polygon_area,
      approx_poly = (\<lambda>c. c),
      apply_perspective_correction = (\<lambda>img c. warp c),
      resize_to_card = Inr,
      id_number_region = Inr,
      image_to_string = (\<lambda>img call. ocr img)\<rparr>"

definition quad_a :: contour where
  "quad_a = [(0, 0), (100, 0), (100, 60), (0, 60)]"

definition quad_b :: contour where
  "quad_b = [(10, 10), (50, 10), (50, 40), (10, 40)]"

definition world_first_fails :: "nat world" where
  "world_first_fails =
     example_world
       (\<lambda>c. if c = quad_a then Inl (LibraryError ''warpPerspective'') else Inr 2)
       (\<lambda>img. Inr (ascii ''123''))
       [quad_b, quad_a]"

definition world_two_cards :: "nat world" where
  "world_two_cards =
     example_world
       (\<lambda>c. if c = quad_a then Inr 1 else Inr 2)
       (\<lambda>img. if img = 1 then Inr (ascii ''29901011234567'')
               else Inr ([1634, 57, 57, 48, 49, 48, 49, 32] @ ascii ''12345''))
       [quad_b, quad_a]"


section \<open>Properties of the corner ordering\<close>

subsection \<open>The picked rows\<close>















subsection \<open>Which corner lands where\<close>




subsection \<open>Re-ordering an ordered quadrilateral\<close>





subsection \<open>Totality on four points\<close>




section \<open>Properties of the confidence score\<close>

subsection \<open>Float values and the shape of the score\<close>

lemma float64_weights:
  "float64 (1 / 10) = 3602879701896397 / 36028797018963968"
  "float64 (7 / 20) = 3152519739159347 / 9007199254740992"
  "float64 (1 / 5) = 3602879701896397 / 18014398509481984"
  "float64 (4 / 5) = 3602879701896397 / 4503599627370496"
  by code_simp+

lemma float_sums:
  "float_add 0 (3602879701896397 / 36028797018963968) = 3602879701896397 / 36028797018963968"
  "float_add 0 (3152519739159347 / 9007199254740992) = 3152519739159347 / 9007199254740992"
  "float_add (3602879701896397 / 36028797018963968) (3152519739159347 / 9007199254740992) = 2026619832316723 / 4503599627370496"
  "float_add (3152519739159347 / 9007199254740992) (3152519739159347 / 9007199254740992) = 3152519739159347 / 4503599627370496"
  "float_add (2026619832316723 / 4503599627370496) (3152519739159347 / 9007199254740992) = 7205759403792793 / 9007199254740992"
  "float_add (3152519739159347 / 9007199254740992) (3602879701896397 / 18014398509481984) = 2476979795053773 / 4503599627370496"
  "float_add (2026619832316723 / 4503599627370496) (3602879701896397 / 18014398509481984) = 1463669878895411 / 2251799813685248"
  "float_add (3152519739159347 / 4503599627370496) (3602879701896397 / 18014398509481984) = 2026619832316723 / 2251799813685248"
  "float_add (7205759403792793 / 9007199254740992) (3602879701896397 / 18014398509481984) = 1"
  unfolding float_add_def by code_simp+

lemma float64_nonneg:
  assumes "0 \<le> x"
  shows "0 \<le> float64 x"
proof (cases "x = 0")
  case True
  then show ?thesis by (simp add: float64_def)
next
  case False
  have u: "0 < power_int (2::rat) (binade x - 52)" by simp
  then have "0 \<le> x / power_int 2 (binade x - 52)" using assms by simp
  then have "0 \<le> \<lfloor>x / power_int 2 (binade x - 52)\<rfloor>" by simp
  then have "0 \<le> round_half_even (x / power_int 2 (binade x - 52))"
    by (simp add: round_half_even_def Let_def)
  then show ?thesis using False u by (simp add: float64_def Let_def)
qed

lemma float_add_nonneg: "0 \<le> a \<Longrightarrow> 0 \<le> b \<Longrightarrow> 0 \<le> float_add a b"
  by (simp add: float_add_def float64_nonneg)

lemma century_check_cases:
  "century_check s c = c \<or> century_check s c = float_add c (float64 (1 / 10))"
  by (simp add: century_check_def)

lemma month_day_check_cases:
  "month_day_check u s c = c \<or>
   month_day_check u s c = float_add c (float64 (7 / 20)) \<or>
   month_day_check u s c = float_add (float_add c (float64 (7 / 20))) (float64 (7 / 20))"
  by (simp add: month_day_check_def Let_def split: sum.splits)

lemma governorate_check_cases:
  "governorate_check s c = c \<or> governorate_check s c = float_add c (float64 (1 / 5))"
  by (simp add: governorate_check_def Let_def)

lemma century_check_nonneg: "0 \<le> c \<Longrightarrow> 0 \<le> century_check s c"
  using century_check_cases [of s c] by (auto intro!: float_add_nonneg float64_nonneg)

lemma month_day_check_nonneg: "0 \<le> c \<Longrightarrow> 0 \<le> month_day_check u s c"
  using month_day_check_cases [of u s c] by (auto intro!: float_add_nonneg float64_nonneg)

lemma governorate_check_nonneg: "0 \<le> c \<Longrightarrow> 0 \<le> governorate_check s c"
  using governorate_check_cases [of s c] by (auto intro!: float_add_nonneg float64_nonneg)

lemma score_range:
  "0 \<le> calculate_egyptian_id_confidence_score u s \<and>
   calculate_egyptian_id_confidence_score u s \<le> 1"
  by (simp add: calculate_egyptian_id_confidence_score_def governorate_check_nonneg
      month_day_check_nonneg century_check_nonneg)

lemma score_zero:
  "s = [] \<or> (\<exists>c \<in> set s. \<not> char_isdigit u c) \<Longrightarrow>
     calculate_egyptian_id_confidence_score u s = 0"
  by (auto simp: calculate_egyptian_id_confidence_score_def str_isdigit_def list_all_iff)


lemma ascii_digits_char_isdigit: "ascii_digits s \<Longrightarrow> list_all (char_isdigit u) s"
  by (induction s) (auto simp: ascii_digits_def char_isdigit_def decimal_of_def)

lemma ascii_digits_take_drop: "ascii_digits s \<Longrightarrow> ascii_digits (py_slice s i j)"
  by (auto simp: ascii_digits_def py_slice_def list_all_iff dest: in_set_takeD in_set_dropD)

lemma ascii_digits_those:
  "ascii_digits s \<Longrightarrow> \<exists>ds. those (map (decimal_of u) s) = Some ds"
  by (induction s) (auto simp: ascii_digits_def decimal_of_def)

lemma ascii_digits_py_int:
  "ascii_digits s \<Longrightarrow> s \<noteq> [] \<Longrightarrow> \<exists>n. py_int u s = Inr n"
  using ascii_digits_those [of s u] by (auto simp: py_int_def)

lemma month_score_values:
  "float64 (7 / 20) \<le> min (float_add 0 (float64 (7 / 20))) 1"
  "float64 (7 / 20) \<le> min (float_add (float_add 0 (float64 (7 / 20))) (float64 (7 / 20))) 1"
  "float64 (7 / 20) \<le> min (float_add (float_add 0 (float64 (7 / 20))) (float64 (1 / 5))) 1"
  "float64 (7 / 20) \<le> min (float_add (float_add (float_add 0 (float64 (7 / 20))) (float64 (7 / 20))) (float64 (1 / 5))) 1"
  "float64 (7 / 20) \<le> min (float_add (float_add 0 (float64 (1 / 10))) (float64 (7 / 20))) 1"
  "float64 (7 / 20) \<le> min (float_add (float_add (float_add 0 (float64 (1 / 10))) (float64 (7 / 20))) (float64 (7 / 20))) 1"
  "float64 (7 / 20) \<le> min (float_add (float_add (float_add 0 (float64 (1 / 10))) (float64 (7 / 20))) (float64 (1 / 5))) 1"
  "float64 (7 / 20) \<le> min (float_add (float_add (float_add (float_add 0 (float64 (1 / 10))) (float64 (7 / 20))) (float64 (7 / 20))) (float64 (1 / 5))) 1"
  by (simp_all add: float64_weights float_sums)

lemma month_day_check_month:
  assumes dig: "ascii_digits s" and len: "7 \<le> length s"
    and m: "py_int u (py_slice s 3 5) = Inr month" and lo: "1 \<le> month" and hi: "month \<le> 12"
  shows "month_day_check u s c = float_add c (float64 (7 / 20)) \<or>
         month_day_check u s c = float_add (float_add c (float64 (7 / 20))) (float64 (7 / 20))"
proof -
  have ne: "py_slice s 3 5 \<noteq> []" "py_slice s 5 7 \<noteq> []"
    using len by (auto simp: py_slice_def)
  have d1: "str_isdigit u (py_slice s 3 5)" and d2: "str_isdigit u (py_slice s 5 7)"
    using ne ascii_digits_char_isdigit [OF ascii_digits_take_drop [OF dig]]
    by (simp_all add: str_isdigit_def)
  obtain day where d: "py_int u (py_slice s 5 7) = Inr day"
    using ascii_digits_py_int [OF ascii_digits_take_drop [OF dig] ne(2)] by blast
  show ?thesis
    using len d1 d2 m d lo hi by (simp add: month_day_check_def Let_def)
qed

lemma score_29901234567:
  "calculate_egyptian_id_confidence_score u (ascii ''29901234567'') =
     min (float_add (float_add (float_add 0 (float64 (1 / 10))) (float64 (7 / 20))) (float64 (7 / 20))) 1"
  by (simp add: calculate_egyptian_id_confidence_score_def ascii_def str_isdigit_def
      char_isdigit_def decimal_of_def century_check_def month_day_check_def
      governorate_check_def py_slice_def py_int_def valid_governorate_codes_def Let_def)

lemma sum_century_month_day:
  "min (float_add (float_add (float_add 0 (float64 (1 / 10))) (float64 (7 / 20))) (float64 (7 / 20))) 1
     = 7205759403792793 / 9007199254740992"
  by (simp add: float64_weights float_sums)


subsection \<open>The month contribution\<close>

text \<open>
  Claim C3, as amended. For every string of ASCII digits of length at least 7
  whose month substring (positions 3 and 4) parses as an integer in \<open>[1, 12]\<close>,
  the month and day block adds \<open>0.35\<close> to the running score (and then \<open>0.35\<close> more
  when the day is valid), and the final score is at least \<open>0.35\<close>. The block is
  guarded by \<open>len(id_number) >= 7\<close>, so a string of 5 or 6 digits gets nothing for
  its month.
\<close>

theorem month_contribution_from_length_7:
  assumes dig: "ascii_digits s" and len: "7 \<le> length s"
    and m: "py_int u (py_slice s 3 5) = Inr month" and lo: "1 \<le> month" and hi: "month \<le> 12"
  shows "(month_day_check u s c = float_add c (float64 (35 / 100)) \<or>
          month_day_check u s c =
            float_add (float_add c (float64 (35 / 100))) (float64 (35 / 100))) \<and>
         float64 (35 / 100) \<le> calculate_egyptian_id_confidence_score u s"
proof -
  have ne: "s \<noteq> []" using len by auto
  then have isd: "str_isdigit u s"
    using ascii_digits_char_isdigit [OF dig] by (simp add: str_isdigit_def)
  have score: "calculate_egyptian_id_confidence_score u s =
      min (governorate_check s (month_day_check u s (century_check s 0))) 1"
    using ne isd by (simp add: calculate_egyptian_id_confidence_score_def)
  have "float64 (7 / 20) \<le> min (governorate_check s (month_day_check u s (century_check s 0))) 1"
    using century_check_cases [of s 0]
      month_day_check_month [OF dig len m lo hi, of "century_check s 0"]
      governorate_check_cases [of s "month_day_check u s (century_check s 0)"]
      month_score_values
    by (elim disjE) simp_all
  with score month_day_check_month [OF dig len m lo hi, of c] show ?thesis by simp
qed

theorem month_contribution_from_length_7_witness:
  "ascii_digits (ascii ''29912011234567'') \<and>
   7 \<le> length (ascii ''29912011234567'') \<and>
   py_int ascii_only (py_slice (ascii ''29912011234567'') 3 5) = Inr 12 \<and>
   (month_day_check ascii_only (ascii ''29912011234567'') 0 = float_add 0 (float64 (35 / 100)) \<or>
    month_day_check ascii_only (ascii ''29912011234567'') 0 =
      float_add (float_add 0 (float64 (35 / 100))) (float64 (35 / 100))) \<and>
   float64 (35 / 100) \<le> calculate_egyptian_id_confidence_score ascii_only (ascii ''29912011234567'')"
proof -
  have h1: "ascii_digits (ascii ''29912011234567'')"
    by (simp add: ascii_digits_def ascii_def)
  have h2: "7 \<le> length (ascii ''29912011234567'')"
    by (simp add: ascii_def)
  have h3: "py_int ascii_only (py_slice (ascii ''29912011234567'') 3 5) = Inr 12"
    by (simp add: py_int_def py_slice_def ascii_def decimal_of_def)
  from month_contribution_from_length_7 [OF h1 h2 h3, of 0] h1 h2 h3
  show ?thesis by simp
qed

text \<open>
  Claim C3 as stated fails at \<open>"29912"\<close>: five ASCII digits, month substring
  \<open>"12"\<close>, and the month and day block leaves the score as it was; the score is
  the \<open>0.10\<close> of the century digit alone.
\<close>

theorem month_contribution_length_5_counterexample:
  "ascii_digits (ascii ''29912'') \<and>
   5 \<le> length (ascii ''29912'') \<and>
   py_int ascii_only (py_slice (ascii ''29912'') 3 5) = Inr 12 \<and>
   month_day_check ascii_only (ascii ''29912'') (century_check (ascii ''29912'') 0)
     = century_check (ascii ''29912'') 0 \<and>
   calculate_egyptian_id_confidence_score ascii_only (ascii ''29912'') = float64 (10 / 100) \<and>
   float64 (10 / 100) < float64 (35 / 100)"
proof -
  have "float_add 0 (float64 (1 / 10)) = float64 (1 / 10)"
    "float64 (1 / 10) \<le> 1" "float64 (1 / 10) < float64 (7 / 20)"
    by (simp_all add: float64_weights float_sums)
  then show ?thesis
    by (simp add: ascii_digits_def ascii_def py_int_def py_slice_def decimal_of_def
        month_day_check_def century_check_def governorate_check_def
        calculate_egyptian_id_confidence_score_def str_isdigit_def char_isdigit_def)
qed

subsection \<open>Range of the score\<close>

text \<open>
  Claim C6, as amended. For every input string the score lies in \<open>[0, 1]\<close>; for
  the empty string and for every string with a character that is not a digit it
  is exactly \<open>0\<close>; and for \<open>"29901234567"\<close> it is the float sum
  \<open>0.10 + 0.35 + 0.35\<close>, which is the double \<open>0.7999999999999999\<close>, one unit in
  the last place (\<open>2\<^sup>-\<^sup>5\<^sup>3\<close>) below the double \<open>0.80\<close>.
\<close>

theorem confidence_score_bounds:
  "0 \<le> calculate_egyptian_id_confidence_score u s \<and>
   calculate_egyptian_id_confidence_score u s \<le> 1 \<and>
   (s = [] \<or> (\<exists>c \<in> set s. \<not> char_isdigit u c) \<longrightarrow>
      calculate_egyptian_id_confidence_score u s = 0) \<and>
   calculate_egyptian_id_confidence_score u (ascii ''29901234567'')
     = 7205759403792793 / 9007199254740992 \<and>
   float64 (80 / 100) - calculate_egyptian_id_confidence_score u (ascii ''29901234567'')
     = 1 / 2 ^ 53"
proof -
  have v: "calculate_egyptian_id_confidence_score u (ascii ''29901234567'')
     = 7205759403792793 / 9007199254740992"
    by (simp only: score_29901234567 sum_century_month_day)
  have "float64 (4 / 5) - 7205759403792793 / 9007199254740992 = 1 / 2 ^ 53"
    by (simp add: float64_weights)
  with v score_range [of u s] score_zero [of s u] show ?thesis by simp
qed

theorem confidence_score_bounds_witness:
  "(ascii ''12a4'' = [] \<or> (\<exists>c \<in> set (ascii ''12a4''). \<not> char_isdigit ascii_only c)) \<and>
   calculate_egyptian_id_confidence_score ascii_only (ascii ''12a4'') = 0"
proof -
  have h: "ascii ''12a4'' = [] \<or> (\<exists>c \<in> set (ascii ''12a4''). \<not> char_isdigit ascii_only c)"
    by (simp add: ascii_def char_isdigit_def decimal_of_def ascii_only_def)
  with confidence_score_bounds [of ascii_only "ascii ''12a4''"] show ?thesis by blast
qed

text \<open>
  Claim C6 as stated fails in its last part: the score of \<open>"29901234567"\<close> is
  strictly below the float \<open>0.80\<close>.
\<close>

theorem confidence_score_below_080_counterexample:
  "calculate_egyptian_id_confidence_score ascii_only (ascii ''29901234567'') < float64 (80 / 100)"
proof -
  have "(7205759403792793 :: rat) / 9007199254740992 < float64 (4 / 5)"
    by (simp add: float64_weights)
  then show ?thesis
    by (simp only: score_29901234567 sum_century_month_day) simp
qed

section \<open>Properties of the candidate loop\<close>

subsection \<open>One iteration\<close>

lemma fallback_emit [simp]: "fallback_quadrilateral (emit es st) = fallback_quadrilateral st"
  and best_emit [simp]: "best_validated_contour (emit es st) = best_validated_contour st"
  and trace_emit [simp]: "trace (emit es st) = trace st @ es"
  by (simp_all add: emit_def)

lemma candidate_loop_fallback:
  "fallback_quadrilateral (candidate_loop w full cs st) =
     (case fallback_quadrilateral st of
        Some f \<Rightarrow> Some f
      | None \<Rightarrow> map_option (approx_poly w) (List.find (\<lambda>c. length (approx_poly w c) = 4) cs))"
proof (induction cs arbitrary: st)
  case Nil
  then show ?case by (simp split: option.splits)
next
  case (Cons c cs)
  show ?case
    by (simp add: Cons.IH Let_def split: sum.splits option.splits prod.splits)
qed

lemma candidate_loop_no_pass:
  "\<forall>c \<in> set cs. \<not> passes_gate w full c \<Longrightarrow>
     best_validated_contour (candidate_loop w full cs st) = best_validated_contour st"
proof (induction cs arbitrary: st)
  case Nil
  then show ?case by simp
next
  case (Cons c cs)
  then have np: "\<not> passes_gate w full c" and rest: "\<forall>c \<in> set cs. \<not> passes_gate w full c"
    by simp_all
  show ?case
    using np by (auto simp: Cons.IH [OF rest] passes_gate_def Let_def
        split: sum.splits option.splits prod.splits)
qed

lemma candidate_loop_step:
  fixes w :: "'img world" and st :: "'img loop_state"
  shows "(\<not> passes_gate w full c \<and>
          (\<exists>st'. (\<forall>rest. candidate_loop w full (c # rest) st = candidate_loop w full rest st') \<and>
                 best_validated_contour st' = best_validated_contour st \<and>
                 set (trace st') \<subseteq> set (trace st) \<union> range Printed \<union>
                   {Normalized (approx_poly w c), Validated (approx_poly w c)})) \<or>
         (passes_gate w full c \<and>
          (\<exists>st'. (\<forall>rest. candidate_loop w full (c # rest) st = st') \<and>
                 best_validated_contour st' = Some (approx_poly w c) \<and>
                 set (trace st') \<subseteq> set (trace st) \<union> range Printed \<union>
                   {Normalized (approx_poly w c), Validated (approx_poly w c)}))"
proof (cases "length (approx_poly w c) = 4")
  case False
  then have "\<not> passes_gate w full c" by (simp add: passes_gate_def)
  moreover have "\<forall>rest. candidate_loop w full (c # rest) st = candidate_loop w full rest st"
    using False by simp
  ultimately show ?thesis by blast
next
  case four: True
  let ?st1 = "if fallback_quadrilateral st = None
              then st\<lparr>fallback_quadrilateral := Some (approx_poly w c)\<rparr> else st"
  let ?st2 = "emit [Normalized (approx_poly w c)] ?st1"
  have st2: "best_validated_contour ?st2 = best_validated_contour st"
    "trace ?st2 = trace st @ [Normalized (approx_poly w c)]"
    by simp_all
  show ?thesis
  proof (cases "extract_and_transform_card w (Some (approx_poly w c)) full")
    case (Inl e)
    then have "\<not> passes_gate w full c" by (simp add: passes_gate_def)
    moreover have "\<forall>rest. candidate_loop w full (c # rest) st =
        candidate_loop w full rest (emit [Printed (FailedToProcess e)] ?st2)"
      using four Inl by (simp add: Let_def)
    moreover have "best_validated_contour (emit [Printed (FailedToProcess e)] ?st2)
        = best_validated_contour st"
      by simp
    moreover have "set (trace (emit [Printed (FailedToProcess e)] ?st2)) \<subseteq>
        set (trace st) \<union> range Printed \<union>
          {Normalized (approx_poly w c), Validated (approx_poly w c)}"
      by auto
    ultimately show ?thesis by blast
  next
    case (Inr r)
    show ?thesis
    proof (cases r)
      case None
      with Inr have "\<not> passes_gate w full c" by (simp add: passes_gate_def)
      moreover have "\<forall>rest. candidate_loop w full (c # rest) st =
          candidate_loop w full rest ?st2"
        using four Inr None by (simp add: Let_def)
      moreover have "set (trace ?st2) \<subseteq>
          set (trace st) \<union> range Printed \<union>
            {Normalized (approx_poly w c), Validated (approx_poly w c)}"
        by auto
      ultimately show ?thesis using st2(1) by blast
    next
      case (Some card_image)
      let ?st3 = "emit [Validated (approx_poly w c)] ?st2"
      show ?thesis
      proof (cases "validate_id_number_region w card_image")
        case (Inl e)
        then have "\<not> passes_gate w full c" using Inr Some by (simp add: passes_gate_def)
        moreover have "\<forall>rest. candidate_loop w full (c # rest) st =
            candidate_loop w full rest (emit [Printed (FailedToProcess e)] ?st3)"
          using four Inr Some Inl by (simp add: Let_def)
        moreover have "best_validated_contour (emit [Printed (FailedToProcess e)] ?st3)
            = best_validated_contour st"
          by simp
        moreover have "set (trace (emit [Printed (FailedToProcess e)] ?st3)) \<subseteq>
            set (trace st) \<union> range Printed \<union>
              {Normalized (approx_poly w c), Validated (approx_poly w c)}"
          by auto
        ultimately show ?thesis by blast
      next
        case validated: (Inr res)
        obtain ok ds where res: "res = (ok, ds)" by (cases res)
        let ?st4 = "emit [Printed (IdValidation ds (length ds)
                       (calculate_egyptian_id_confidence_score (unicode w) ds))] ?st3"
        have tr4: "set (trace ?st4) \<subseteq> set (trace st) \<union> range Printed \<union>
              {Normalized (approx_poly w c), Validated (approx_poly w c)}"
          by auto
        show ?thesis
        proof (cases ok)
          case True
          then have "passes_gate w full c"
            using four Inr Some validated res by (simp add: passes_gate_def)
          moreover have "\<forall>rest. candidate_loop w full (c # rest) st =
              ?st4\<lparr>best_validated_contour := Some (approx_poly w c)\<rparr>"
            using four Inr Some validated res True by (simp add: Let_def)
          moreover have "best_validated_contour
              (?st4\<lparr>best_validated_contour := Some (approx_poly w c)\<rparr>) = Some (approx_poly w c)"
            by simp
          moreover have "set (trace (?st4\<lparr>best_validated_contour := Some (approx_poly w c)\<rparr>))
              \<subseteq> set (trace st) \<union> range Printed \<union>
                {Normalized (approx_poly w c), Validated (approx_poly w c)}"
            using tr4 by simp
          ultimately show ?thesis by blast
        next
          case False
          then have "\<not> passes_gate w full c"
            using four Inr Some validated res by (simp add: passes_gate_def)
          moreover have "\<forall>rest. candidate_loop w full (c # rest) st =
              candidate_loop w full rest ?st4"
            using four Inr Some validated res False by (simp add: Let_def)
          moreover have "best_validated_contour ?st4 = best_validated_contour st"
            by simp
          ultimately show ?thesis using tr4 by blast
        qed
      qed
    qed
  qed
qed

lemma candidate_loop_skip:
  assumes "\<not> passes_gate w full d"
  shows "\<exists>st'. \<forall>rest. candidate_loop w full (d # rest) st = candidate_loop w full rest st'"
  using assms candidate_loop_step [of w full d st] by blast

lemma candidate_loop_accept:
  assumes "passes_gate w full c"
  shows "\<exists>st'. best_validated_contour st' = Some (approx_poly w c) \<and>
           (\<forall>rest. candidate_loop w full (c # rest) st = st')"
  using assms candidate_loop_step [of w full c st] by blast

lemma candidate_loop_short_circuit:
  assumes "\<forall>d \<in> set pre. \<not> passes_gate w full d" and "passes_gate w full c"
  shows "candidate_loop w full (pre @ c # post) st = candidate_loop w full (pre @ [c]) st \<and>
         best_validated_contour (candidate_loop w full (pre @ [c]) st) = Some (approx_poly w c)"
  using assms(1)
proof (induction pre arbitrary: st)
  case Nil
  from candidate_loop_accept [OF assms(2), of st] show ?case by auto
next
  case (Cons d pre)
  then have np: "\<not> passes_gate w full d" and rest: "\<forall>d \<in> set pre. \<not> passes_gate w full d"
    by simp_all
  from candidate_loop_skip [OF np, of st] obtain st' where
    st': "\<And>rest. candidate_loop w full (d # rest) st = candidate_loop w full rest st'"
    by blast
  from Cons.IH [OF rest, of st'] show ?case by (simp only: append_Cons st')
qed


lemma candidate_loop_trace:
  "set (trace (candidate_loop w full cs st)) \<subseteq>
     set (trace st) \<union> range Printed \<union>
     Normalized ` approx_poly w ` set cs \<union> Validated ` approx_poly w ` set cs"
proof (induction cs arbitrary: st)
  case Nil
  then show ?case by simp
next
  case (Cons c cs)
  from candidate_loop_step [of w full c st] consider
    (skip) st' where "candidate_loop w full (c # cs) st = candidate_loop w full cs st'"
      "set (trace st') \<subseteq> set (trace st) \<union> range Printed \<union>
          {Normalized (approx_poly w c), Validated (approx_poly w c)}"
  | (accept) st' where "candidate_loop w full (c # cs) st = st'"
      "set (trace st') \<subseteq> set (trace st) \<union> range Printed \<union>
          {Normalized (approx_poly w c), Validated (approx_poly w c)}"
    by blast
  then show ?case
  proof cases
    case skip
    from Cons.IH [of st'] skip(2) show ?thesis
      unfolding skip(1) by auto
  next
    case accept
    then show ?thesis unfolding accept(1) by auto
  qed
qed

lemma sorted_take_drop_ge:
  assumes s: "sorted (map f xs)" and t: "take n xs = pre @ c # post" and d: "d \<in> set xs"
  shows "d \<in> set pre \<or> f c \<le> f d"
proof -
  have xs: "xs = pre @ c # (post @ drop n xs)"
    using append_take_drop_id [of n xs] t by simp
  then have "sorted (map f (pre @ c # (post @ drop n xs)))" using s by simp
  then have "\<forall>y \<in> set (post @ drop n xs). f c \<le> f y"
    by (auto simp: sorted_append)
  moreover have "d \<in> set pre \<or> d = c \<or> d \<in> set (post @ drop n xs)"
    using d by (subst (asm) xs) auto
  ultimately show ?thesis by auto
qed

lemma find_best_card_contour_result:
  "snd (find_best_card_contour w edges full) =
     (let st = candidate_loop w full (largest_contours w (find_contours w edges)) initial_state
      in case best_validated_contour st of
           Some k \<Rightarrow> Inr k
         | None \<Rightarrow>
             (case fallback_quadrilateral st of
                Some f \<Rightarrow> Inr f
              | None \<Rightarrow> Inl (RuntimeError ''No suitable quadrilateral contour found.'')))"
  by (simp add: find_best_card_contour_def Let_def split: option.splits)

lemma largest_contours_sorted:
  "sorted (map (\<lambda>c. - contour_area w c) (sort_key (\<lambda>c. - contour_area w c) cs))"
  by (rule sorted_sort_key)



lemma initial_state_simps [simp]:
  "best_validated_contour initial_state = None"
  "fallback_quadrilateral initial_state = None"
  "trace initial_state = []"
  by (simp_all add: initial_state_def)



section \<open>The example scenes, evaluated\<close>

text \<open>
  In \<open>world_first_fails\<close> the larger quadrilateral \<open>quad_a\<close> cannot be warped and
  the smaller \<open>quad_b\<close> yields three digits. In \<open>world_two_cards\<close> both yield a
  valid identifier. In \<open>world_no_contours\<close> nothing is detected.
\<close>

lemmas world_defs = example_world_def quad_a_def quad_b_def polygon_area_def
  largest_contours_def

lemma first_fails_largest:
  "largest_contours world_first_fails (find_contours world_first_fails 0) = [quad_a, quad_b]"
  by (simp add: world_first_fails_def world_defs)

lemma two_cards_largest:
  "largest_contours world_two_cards (find_contours world_two_cards 0) = [quad_a, quad_b]"
  by (simp add: world_two_cards_def world_defs)

lemma first_fails_extract:
  "extract_and_transform_card world_first_fails (Some quad_a) 0
     = Inl (LibraryError ''warpPerspective'')"
  "extract_and_transform_card world_first_fails (Some quad_b) 0 = Inr (Some 2)"
  by (simp_all add: extract_and_transform_card_def world_first_fails_def world_defs)

lemma first_fails_validate:
  "validate_id_number_region world_first_fails 2 = Inr (False, ascii ''123'')"
  by (simp add: validate_id_number_region_def world_first_fails_def example_world_def
      extracted_digit_string_def arabic_to_ascii_translation_def char_isdigit_def
      decimal_of_def ascii_only_def is_valid_id_number_def ascii_def)

lemma first_fails_no_pass:
  "\<forall>c \<in> set (largest_contours world_first_fails (find_contours world_first_fails 0)).
      \<not> passes_gate world_first_fails 0 c"
proof -
  have ap: "approx_poly world_first_fails = (\<lambda>c. c)"
    by (simp add: world_first_fails_def example_world_def)
  show ?thesis
    by (simp add: first_fails_largest passes_gate_def ap first_fails_extract first_fails_validate)
qed

lemma first_fails_find_best:
  "find_best_card_contour world_first_fails 0 0 =
     ([Normalized quad_a, Printed (FailedToProcess (LibraryError ''warpPerspective'')),
       Normalized quad_b, Validated quad_b, Printed (IdValidation (ascii ''123'') 3 0),
       Printed UsingFallback],
      Inr quad_a)"
proof -
  have ap: "approx_poly world_first_fails = (\<lambda>c. c)"
    and un: "unicode world_first_fails = ascii_only"
    by (simp_all add: world_first_fails_def example_world_def)
  have len: "length quad_a = 4" "length quad_b = 4" "length (ascii ''123'') = 3"
    by (simp_all add: quad_a_def quad_b_def ascii_def)
  have sc: "calculate_egyptian_id_confidence_score ascii_only (ascii ''123'') = 0"
    by (simp add: calculate_egyptian_id_confidence_score_def ascii_def str_isdigit_def
        char_isdigit_def decimal_of_def century_check_def month_day_check_def
        governorate_check_def)
  show ?thesis
    by (simp add: find_best_card_contour_def first_fails_largest ap un len sc
        first_fails_extract first_fails_validate initial_state_def emit_def Let_def)
qed

lemma two_cards_passes:
  "passes_gate world_two_cards 0 quad_a" "passes_gate world_two_cards 0 quad_b"
  by (simp_all add: passes_gate_def extract_and_transform_card_def
      validate_id_number_region_def world_two_cards_def example_world_def
      extracted_digit_string_def arabic_to_ascii_translation_def char_isdigit_def
      decimal_of_def ascii_only_def is_valid_id_number_def ascii_def quad_a_def quad_b_def)





section \<open>The validity gate\<close>

text \<open>
  Claim C5. Whenever \<open>validate_id_number_region\<close> returns, its flag is true if
  and only if the digit string it returns has at least 12 characters: 14 digits
  pass, 11 digits fail, exactly 12 digits pass.
\<close>

theorem validity_gate_at_12:
  assumes "validate_id_number_region w standardized_card_image = Inr (ok, digit_string)"
  shows "(ok \<longleftrightarrow> 12 \<le> length digit_string) \<and>
         (length digit_string = 14 \<longrightarrow> ok) \<and>
         (length digit_string = 11 \<longrightarrow> \<not> ok) \<and>
         (length digit_string = 12 \<longrightarrow> ok)"
proof -
  from assms have "ok = is_valid_id_number digit_string"
    by (auto simp: validate_id_number_region_def Let_def split: sum.splits)
  then show ?thesis by (simp add: is_valid_id_number_def)
qed

text \<open>
  The statement on an OCR text of twelve digits, one of them Arabic-Indic, and a
  space.
\<close>

theorem validity_gate_at_12_witness:
  "validate_id_number_region world_two_cards 2 = Inr (True, ascii ''299010112345'') \<and>
   length (ascii ''299010112345'') = 12 \<and>
   12 \<le> length (ascii ''299010112345'')"
proof -
  have h: "validate_id_number_region world_two_cards 2 = Inr (True, ascii ''299010112345'')"
    by (simp add: validate_id_number_region_def world_two_cards_def example_world_def
        extracted_digit_string_def arabic_to_ascii_translation_def char_isdigit_def
        decimal_of_def ascii_only_def is_valid_id_number_def ascii_def)
  have l: "length (ascii ''299010112345'') = 12" by (simp add: ascii_def)
  from validity_gate_at_12 [OF h] h l show ?thesis by blast
qed

section \<open>Selection\<close>

subsection \<open>The fallback\<close>

text \<open>
  Claim C2, as amended. The fallback is the first candidate in rank order whose
  approximation has four corners, whether its perspective correction succeeds
  or not (it is stored before the \<open>try\<close> block); and when no candidate passes the
  validity gate, \<open>find_best_card_contour\<close> returns that fallback, or raises when
  there is none.
\<close>

theorem fallback_is_first_four_corner_candidate:
  "fallback_quadrilateral (candidate_loop w full cs initial_state) =
     map_option (approx_poly w) (List.find (\<lambda>c. length (approx_poly w c) = 4) cs) \<and>
   ((\<forall>c \<in> set (largest_contours w (find_contours w edges)). \<not> passes_gate w full c) \<longrightarrow>
      snd (find_best_card_contour w edges full) =
        (case List.find (\<lambda>c. length (approx_poly w c) = 4)
                (largest_contours w (find_contours w edges)) of
           None \<Rightarrow> Inl (RuntimeError ''No suitable quadrilateral contour found.'')
         | Some c \<Rightarrow> Inr (approx_poly w c)))"
proof (intro conjI impI)
  show "fallback_quadrilateral (candidate_loop w full cs initial_state) =
     map_option (approx_poly w) (List.find (\<lambda>c. length (approx_poly w c) = 4) cs)"
    by (simp add: candidate_loop_fallback)
next
  assume np: "\<forall>c \<in> set (largest_contours w (find_contours w edges)). \<not> passes_gate w full c"
  show "snd (find_best_card_contour w edges full) =
        (case List.find (\<lambda>c. length (approx_poly w c) = 4)
                (largest_contours w (find_contours w edges)) of
           None \<Rightarrow> Inl (RuntimeError ''No suitable quadrilateral contour found.'')
         | Some c \<Rightarrow> Inr (approx_poly w c))"
    by (simp add: find_best_card_contour_result candidate_loop_no_pass [OF np]
        candidate_loop_fallback Let_def split: option.splits)
qed

text \<open>
  The statement in \<open>world_first_fails\<close>, where no candidate passes the gate.
\<close>

theorem fallback_is_first_four_corner_candidate_witness:
  "largest_contours world_first_fails (find_contours world_first_fails 0) = [quad_a, quad_b] \<and>
   \<not> passes_gate world_first_fails 0 quad_a \<and>
   \<not> passes_gate world_first_fails 0 quad_b \<and>
   snd (find_best_card_contour world_first_fails 0 0) = Inr quad_a"
proof -
  have ap: "approx_poly world_first_fails = (\<lambda>c. c)"
    by (simp add: world_first_fails_def example_world_def)
  have len: "length quad_a = 4" by (simp add: quad_a_def)
  from fallback_is_first_four_corner_candidate
      [where w = world_first_fails and full = 0 and edges = 0 and cs = "[]"]
    first_fails_no_pass
  have "snd (find_best_card_contour world_first_fails 0 0) =
      (case List.find (\<lambda>c. length (approx_poly world_first_fails c) = 4)
              (largest_contours world_first_fails (find_contours world_first_fails 0)) of
         None \<Rightarrow> Inl (RuntimeError ''No suitable quadrilateral contour found.'')
       | Some c \<Rightarrow> Inr (approx_poly world_first_fails c))"
    by blast
  then have "snd (find_best_card_contour world_first_fails 0 0) = Inr quad_a"
    by (simp add: first_fails_largest ap len)
  with first_fails_no_pass first_fails_largest show ?thesis by simp
qed

text \<open>
  Claim C2 as stated fails in \<open>world_first_fails\<close>: the perspective correction of
  the first candidate \<open>quad_a\<close> raises, that of \<open>quad_b\<close> succeeds and is the first
  to succeed, the identifier of \<open>quad_b\<close> is too short, and the contour returned
  is \<open>quad_a\<close>, not \<open>quad_b\<close>.
\<close>

theorem fallback_before_normalization_counterexample:
  "largest_contours world_first_fails (find_contours world_first_fails 0) = [quad_a, quad_b] \<and>
   extract_and_transform_card world_first_fails (Some quad_a) 0
     = Inl (LibraryError ''warpPerspective'') \<and>
   extract_and_transform_card world_first_fails (Some quad_b) 0 = Inr (Some 2) \<and>
   validate_id_number_region world_first_fails 2 = Inr (False, ascii ''123'') \<and>
   snd (find_best_card_contour world_first_fails 0 0) = Inr quad_a \<and>
   quad_a \<noteq> quad_b"
  by (simp add: first_fails_largest first_fails_extract first_fails_validate
      first_fails_find_best) (simp add: quad_a_def quad_b_def)

subsection \<open>Short circuit\<close>

lemma candidate_loop_first_passing:
  assumes top: "largest_contours w (find_contours w edges) = pre @ c # post"
    and np: "\<forall>d \<in> set pre. \<not> passes_gate w full d"
    and p: "passes_gate w full c"
  shows "candidate_loop w full (pre @ c # post) initial_state =
           candidate_loop w full (pre @ [c]) initial_state \<and>
         find_best_card_contour w edges full =
           (trace (candidate_loop w full (pre @ [c]) initial_state), Inr (approx_poly w c)) \<and>
         (\<forall>e \<in> set (fst (find_best_card_contour w edges full)). \<forall>k.
             e = Normalized k \<or> e = Validated k \<longrightarrow> k \<in> approx_poly w ` set (pre @ [c])) \<and>
         (\<forall>d \<in> set (find_contours w edges).
             passes_gate w full d \<longrightarrow> contour_area w d \<le> contour_area w c)"
proof -
  let ?st = "candidate_loop w full (pre @ [c]) initial_state"
  from candidate_loop_short_circuit [OF np p, of post initial_state]
  have eq: "candidate_loop w full (pre @ c # post) initial_state = ?st"
    and best: "best_validated_contour ?st = Some (approx_poly w c)"
    by simp_all
  have fb: "find_best_card_contour w edges full = (trace ?st, Inr (approx_poly w c))"
    by (simp add: find_best_card_contour_def top eq best Let_def)
  have ev: "\<forall>e \<in> set (trace ?st). \<forall>k.
      e = Normalized k \<or> e = Validated k \<longrightarrow> k \<in> approx_poly w ` set (pre @ [c])"
    using candidate_loop_trace [of w full "pre @ [c]" initial_state] by auto
  have area: "\<forall>d \<in> set (find_contours w edges).
      passes_gate w full d \<longrightarrow> contour_area w d \<le> contour_area w c"
  proof (intro ballI impI)
    fix d assume d: "d \<in> set (find_contours w edges)" and pd: "passes_gate w full d"
    let ?f = "\<lambda>c. - contour_area w c"
    have "d \<in> set (sort_key ?f (find_contours w edges))" using d by simp
    from sorted_take_drop_ge [OF largest_contours_sorted top [unfolded largest_contours_def] this]
    have "d \<in> set pre \<or> - contour_area w c \<le> - contour_area w d" .
    with np pd show "contour_area w d \<le> contour_area w c" by auto
  qed
  from eq fb ev area show ?thesis by simp
qed

text \<open>
  Claim C4. In every run in which some ranked candidate passes the gate, the
  ranked list splits as \<open>pre @ c # post\<close> with \<open>c\<close> the first candidate that
  passes, and the loop ends in the state it reaches on \<open>pre @ [c]\<close> alone: \<open>c\<close> is
  returned, every perspective correction and every validation in the trace
  belongs to a candidate of \<open>pre @ [c]\<close>, none to \<open>post\<close>, and every detected
  contour that passes the gate has an area at most that of \<open>c\<close>. The confidence
  score plays no part in the choice.
\<close>

theorem first_passing_candidate_wins:
  assumes "\<exists>c \<in> set (largest_contours w (find_contours w edges)). passes_gate w full c"
  shows "\<exists>pre c post.
      largest_contours w (find_contours w edges) = pre @ c # post \<and>
      (\<forall>d \<in> set pre. \<not> passes_gate w full d) \<and>
      passes_gate w full c \<and>
      candidate_loop w full (pre @ c # post) initial_state =
        candidate_loop w full (pre @ [c]) initial_state \<and>
      find_best_card_contour w edges full =
        (trace (candidate_loop w full (pre @ [c]) initial_state), Inr (approx_poly w c)) \<and>
      (\<forall>e \<in> set (fst (find_best_card_contour w edges full)). \<forall>k.
          e = Normalized k \<or> e = Validated k \<longrightarrow> k \<in> approx_poly w ` set (pre @ [c])) \<and>
      (\<forall>d \<in> set (find_contours w edges).
          passes_gate w full d \<longrightarrow> contour_area w d \<le> contour_area w c)"
proof -
  from split_list_first_prop [OF assms] obtain pre c post where
    top: "largest_contours w (find_contours w edges) = pre @ c # post"
    and p: "passes_gate w full c"
    and np: "\<forall>d \<in> set pre. \<not> passes_gate w full d"
    by blast
  from candidate_loop_first_passing [OF top np p] top np p show ?thesis by blast
qed

text \<open>
  The statement in \<open>world_two_cards\<close>: both candidates pass, the larger one is
  returned and the other is neither warped nor validated.
\<close>

theorem first_passing_candidate_wins_witness:
  "passes_gate world_two_cards 0 quad_a \<and>
   passes_gate world_two_cards 0 quad_b \<and>
   largest_contours world_two_cards (find_contours world_two_cards 0) = [quad_a, quad_b] \<and>
   snd (find_best_card_contour world_two_cards 0 0) = Inr quad_a \<and>
   Normalized quad_b \<notin> set (fst (find_best_card_contour world_two_cards 0 0)) \<and>
   Validated quad_b \<notin> set (fst (find_best_card_contour world_two_cards 0 0)) \<and>
   contour_area world_two_cards quad_b \<le> contour_area world_two_cards quad_a"
proof -
  have ap: "approx_poly world_two_cards = (\<lambda>c. c)"
    and fc: "find_contours world_two_cards 0 = [quad_b, quad_a]"
    by (simp_all add: world_two_cards_def example_world_def)
  have ne: "quad_b \<noteq> quad_a" by (simp add: quad_a_def quad_b_def)
  have ex: "\<exists>c \<in> set (largest_contours world_two_cards (find_contours world_two_cards 0)).
      passes_gate world_two_cards 0 c"
    using two_cards_passes(1) by (simp add: two_cards_largest)
  from first_passing_candidate_wins [OF ex] obtain pre c post where
    top: "[quad_a, quad_b] = pre @ c # post"
    and np: "\<forall>d \<in> set pre. \<not> passes_gate world_two_cards 0 d"
    and fb: "find_best_card_contour world_two_cards 0 0 =
        (trace (candidate_loop world_two_cards 0 (pre @ [c]) initial_state), Inr c)"
    and ev: "\<forall>e \<in> set (fst (find_best_card_contour world_two_cards 0 0)). \<forall>k.
        e = Normalized k \<or> e = Validated k \<longrightarrow> k \<in> set (pre @ [c])"
    and area: "\<forall>d \<in> set (find_contours world_two_cards 0).
        passes_gate world_two_cards 0 d \<longrightarrow>
          contour_area world_two_cards d \<le> contour_area world_two_cards c"
    unfolding two_cards_largest ap image_ident by blast
  have pre: "pre = []"
  proof (cases pre)
    case Nil
    then show ?thesis .
  next
    case (Cons x xs)
    with top have "x = quad_a" by simp
    with Cons np two_cards_passes(1) show ?thesis by simp
  qed
  with top have c: "c = quad_a" by simp
  have r: "snd (find_best_card_contour world_two_cards 0 0) = Inr quad_a"
    using fb c by simp
  have n: "Normalized quad_b \<notin> set (fst (find_best_card_contour world_two_cards 0 0))"
    and v: "Validated quad_b \<notin> set (fst (find_best_card_contour world_two_cards 0 0))"
    using ev ne pre c by auto
  have a: "contour_area world_two_cards quad_b \<le> contour_area world_two_cards quad_a"
    using area two_cards_passes(2) c by (simp add: fc)
  from two_cards_passes two_cards_largest r n v a show ?thesis by blast
qed

section \<open>Failures that reach the caller\<close>




text \<open>
  Outside the amended statement: in \<open>world_first_fails\<close> the loop catches the error
  of the perspective correction of \<open>quad_a\<close> and returns \<open>quad_a\<close> as the fallback;
  step 4 of \<open>scan_id_card\<close> then corrects the same contour again, outside any
  \<open>try\<close>, and the error reaches the caller.
\<close>

lemma scan_id_card_fallback_error_escapes:
  "snd (scan_id_card world_first_fails ''card.jpg'' ''front'')
     = Inl (LibraryError ''warpPerspective'')"
proof -
  have w: "imread world_first_fails ''card.jpg'' = Some 0"
    "edge_detection world_first_fails (resize_for_processing world_first_fails 0) = 0"
    "apply_perspective_correction world_first_fails 0 quad_a
       = Inl (LibraryError ''warpPerspective'')"
    by (simp_all add: world_first_fails_def example_world_def)
  show ?thesis
    by (simp add: scan_id_card_def w first_fails_find_best Let_def)
qed




end
